theory Spec2Isabelle
  imports Main "HOL-Library.AList"
begin

section \<open>Python values\<close>

text \<open>
  The program keeps four module-level dictionaries (\<open>conferences\<close>, \<open>users\<close>,
  \<open>bookings\<close>, \<open>waitlists\<close>) and serves six routes that read and mutate them.
  A Python \<open>dict\<close> with string keys is an association list in insertion order:
  \<open>map_of\<close> is the lookup, \<open>AList.update\<close> is \<open>d[k] = v\<close> (it overwrites in place
  or appends), \<open>AList.delete\<close> is \<open>del d[k]\<close> / \<open>d.pop(k)\<close>.
  Text is ASCII. Instants are integers counting microseconds.
\<close>

type_synonym 'v dict = "(string \<times> 'v) list"

datatype pyexc = TypeError | ValueError

text \<open>
  A parsed \<open>datetime\<close>: \<open>fromisoformat\<close> gives a naive value when the text has no
  offset and an aware one otherwise; ordering a naive against an aware value raises
  \<open>TypeError\<close>.
\<close>

datatype datetime = Naive int | Aware int

definition hours :: "int \<Rightarrow> int" where
  "hours n = n * 3600000000"

fun dt_pair :: "datetime \<Rightarrow> datetime \<Rightarrow> pyexc + int \<times> int" where
  "dt_pair (Naive a) (Naive b) = Inr (a, b)"
| "dt_pair (Aware a) (Aware b) = Inr (a, b)"
| "dt_pair (Naive a) (Aware b) = Inl TypeError"
| "dt_pair (Aware a) (Naive b) = Inl TypeError"

subsection \<open>String methods used by the validators\<close>

definition isalnum_char :: "char \<Rightarrow> bool" where
  "isalnum_char c =
     (let n = (of_char c :: nat)
      in (48 \<le> n \<and> n \<le> 57) \<or> (65 \<le> n \<and> n \<le> 90) \<or> (97 \<le> n \<and> n \<le> 122))"

definition isspace_char :: "char \<Rightarrow> bool" where
  "isspace_char c =
     (let n = (of_char c :: nat) in (9 \<le> n \<and> n \<le> 13) \<or> (28 \<le> n \<and> n \<le> 32))"

text \<open>\<open>s.isalnum()\<close>: at least one character, all of them alphanumeric.\<close>

definition isalnum :: "string \<Rightarrow> bool" where
  "isalnum s = (s \<noteq> [] \<and> list_all isalnum_char s)"

text \<open>\<open>s.replace(" ", "")\<close>\<close>

definition remove_spaces :: "string \<Rightarrow> string" where
  "remove_spaces s = filter (\<lambda>c. c \<noteq> CHR '' '') s"

text \<open>\<open>s.strip()\<close>\<close>

definition strip :: "string \<Rightarrow> string" where
  "strip s = rev (dropWhile isspace_char (rev (dropWhile isspace_char s)))"

text \<open>\<open>s.split(",")\<close>: one piece more than there are commas.\<close>

fun split_comma :: "string \<Rightarrow> string list" where
  "split_comma [] = [[]]"
| "split_comma (c # cs) =
     (if c = CHR '','' then [] # split_comma cs
      else (case split_comma cs of
              [] \<Rightarrow> [[c]]
            | p # ps \<Rightarrow> (c # p) # ps))"

section \<open>The stores\<close>

record keyed =
  UserID :: string

record user = keyed +
  Interested_Topics :: string

record wl_entry = keyed +
  Conference :: string
  timestamp :: int

record booking = wl_entry +
  booking_id :: string

text \<open>
  The body of an \<open>/add_conference\<close> request, every required field present and of its
  JSON type. The two timestamps are held as what
  \<open>datetime.fromisoformat(text.replace("Z", "+00:00"))\<close> makes of them: \<open>None\<close> when it
  raises \<open>ValueError\<close>.
\<close>

record conf_req =
  name :: string
  location :: string
  topics :: string
  start_timestamp :: "datetime option"
  end_timestamp :: "datetime option"
  available_slots :: int

record conference = conf_req +
  waitlist :: "string list"

record state =
  conferences :: "conference dict"
  users :: "user dict"
  bookings :: "booking dict"
  waitlists :: "wl_entry dict"

definition init :: state where
  "init = \<lparr>conferences = [], users = [], bookings = [], waitlists = []\<rparr>"

text \<open>
  What a route hands back to Flask: a JSON body with its status, \<open>None\<close> when the
  function falls off its end, or an exception that nothing catches. The dictionaries
  keep whatever was written before the exception.
\<close>

datatype response =
    Message string
  | Booking_id string
  | Waitlisted string
  | Booking_confirmed string
  | Status string string string
  | Error nat string
  | Returns_None
  | Raises pyexc

section \<open>Validation\<close>

definition validate_user :: "string \<Rightarrow> string option \<Rightarrow> bool \<times> string" where
  "validate_user user_id interested =
     (if \<not> isalnum user_id then
        (False, ''Invalid UserID. Only alphanumeric characters are allowed.'')
      else
        let ts = split_comma (case interested of None \<Rightarrow> [] | Some t \<Rightarrow> t)
        in if length ts > 50 \<or> list_ex (\<lambda>t. \<not> isalnum (remove_spaces (strip t))) ts then
             (False, ''Invalid interested topics. Maximum 50 alphanumeric strings allowed, separated by commas.'')
           else (True, []))"

definition validate_conference :: "conf_req \<Rightarrow> pyexc + bool \<times> string" where
  "validate_conference data =
     (if \<not> isalnum (remove_spaces (name data)) then
        Inr (False, ''Invalid conference name. Only alphanumeric characters and spaces are allowed.'')
      else if \<not> isalnum (remove_spaces (location data)) then
        Inr (False, ''Invalid location. Only alphanumeric characters and spaces are allowed.'')
      else
        let ts = split_comma (topics data)
        in if length ts > 10 \<or> list_ex (\<lambda>t. \<not> isalnum (remove_spaces t)) ts then
             Inr (False, ''Invalid topics. Maximum 10 alphanumeric strings allowed, separated by commas.'')
           else
             (case (start_timestamp data, end_timestamp data) of
                (Some st, Some en) \<Rightarrow>
                  (case dt_pair st en of
                     Inl e \<Rightarrow> Inl e
                   | Inr (a, b) \<Rightarrow>
                       if a \<ge> b then
                         Inr (False, ''Start timestamp must be before end timestamp.'')
                       else if b - a > hours 12 then
                         Inr (False, ''Conference duration should not exceed 12 hours.'')
                       else if available_slots data \<le> 0 then
                         Inr (False, ''Available slots must be an integer greater than 0.'')
                       else Inr (True, []))
              | _ \<Rightarrow> Inr (False, ''Invalid timestamps. Use ISO format.'')))"

section \<open>Routes\<close>

definition add_user :: "string \<Rightarrow> string option \<Rightarrow> state \<Rightarrow> response \<times> state" where
  "add_user user_id interested s =
     (case validate_user user_id interested of
        (False, message) \<Rightarrow> (Error 400 message, s)
      | (True, _) \<Rightarrow>
          if map_of (users s) user_id \<noteq> None then
            (Error 400 ''UserID already exists.'', s)
          else
            (Message ''User added successfully.'',
             s\<lparr>users := AList.update user_id
                   \<lparr>UserID = user_id,
                    Interested_Topics = (case interested of None \<Rightarrow> [] | Some t \<Rightarrow> t)\<rparr>
                   (users s)\<rparr>))"

definition add_conference :: "conf_req \<Rightarrow> state \<Rightarrow> response \<times> state" where
  "add_conference data s =
     (case validate_conference data of
        Inl e \<Rightarrow> (Raises e, s)
      | Inr (False, message) \<Rightarrow> (Error 400 message, s)
      | Inr (True, _) \<Rightarrow>
          if map_of (conferences s) (name data) \<noteq> None then
            (Error 400 ''Conference name already exists.'', s)
          else
            (Message ''Conference added successfully.'',
             s\<lparr>conferences := AList.update (name data)
                   \<lparr>name = name data, location = location data, topics = topics data,
                    start_timestamp = start_timestamp data,
                    end_timestamp = end_timestamp data,
                    available_slots = available_slots data, waitlist = []\<rparr>
                   (conferences s)\<rparr>))"

text \<open>
  \<open>book_conference\<close> draws one \<open>uuid4\<close> and reads the clock once on either path that
  writes; both are arguments. The two extra fields of its error bodies (the catalogue of
  conferences, the id of the booking found) are left out of \<open>Error\<close>.
\<close>

definition book_conference ::
  "string \<Rightarrow> int \<Rightarrow> string \<Rightarrow> string \<Rightarrow> state \<Rightarrow> response \<times> state" where
  "book_conference uuid now conference_name user_id s =
     (case map_of (conferences s) conference_name of
        None \<Rightarrow> (Error 404 ''Conference not found.'', s)
      | Some conference \<Rightarrow>
          if map_of (users s) user_id = None then (Error 404 ''UserID not found.'', s)
          else if list_ex (\<lambda>(k, b). UserID b = user_id \<and> Conference b = conference_name)
                    (bookings s) then
            (Error 400 ''User already has a booking for this conference.'', s)
          else if available_slots conference \<le> 0 then
            (Waitlisted uuid,
             s\<lparr>waitlists := AList.update uuid
                   \<lparr>UserID = user_id, Conference = conference_name, timestamp = now\<rparr>
                   (waitlists s),
               conferences := AList.update conference_name
                   (conference\<lparr>waitlist := waitlist conference @ [uuid]\<rparr>)
                   (conferences s)\<rparr>)
          else
            (Booking_id uuid,
             s\<lparr>bookings := AList.update uuid
                   \<lparr>UserID = user_id, Conference = conference_name, timestamp = now,
                    booking_id = uuid\<rparr>
                   (bookings s),
               conferences := AList.update conference_name
                   (conference\<lparr>available_slots := available_slots conference - 1\<rparr>)
                   (conferences s)\<rparr>))"

text \<open>
  \<open>confirm_waitlist_booking\<close>: \<open>list.remove\<close> raises \<open>ValueError\<close> when the id is not
  in the queue, and otherwise deletes its first occurrence. The clock readings of one call
  are taken to be the same instant.
\<close>

definition confirm_waitlist_booking ::
  "string \<Rightarrow> int \<Rightarrow> string \<Rightarrow> state \<Rightarrow> response \<times> state" where
  "confirm_waitlist_booking uuid now waitlist_id s =
     (case map_of (waitlists s) waitlist_id of
        None \<Rightarrow> (Error 404 ''Waitlist entry not found.'', s)
      | Some waitlist_entry \<Rightarrow>
          (case map_of (conferences s) (Conference waitlist_entry) of
             None \<Rightarrow> (Error 404 ''Conference not found.'', s)
           | Some conference \<Rightarrow>
               if available_slots conference \<le> 0 then (Error 400 ''No slots available.'', s)
               else if now - timestamp waitlist_entry > hours 1 then
                 (if waitlist_id \<in> set (waitlist conference) then
                    (Error 400 ''Confirmation window expired. Moved to end of waitlist.'',
                     s\<lparr>conferences := AList.update (Conference waitlist_entry)
                           (conference\<lparr>waitlist :=
                              remove1 waitlist_id (waitlist conference) @ [waitlist_id]\<rparr>)
                           (conferences s)\<rparr>)
                  else (Raises ValueError, s))
               else
                 (Booking_confirmed uuid,
                  s\<lparr>bookings := AList.update uuid
                        \<lparr>UserID = UserID waitlist_entry,
                         Conference = Conference waitlist_entry, timestamp = now,
                         booking_id = uuid\<rparr>
                        (bookings s),
                    conferences := AList.update (Conference waitlist_entry)
                        (conference\<lparr>available_slots := available_slots conference - 1\<rparr>)
                        (conferences s),
                    waitlists := AList.delete waitlist_id (waitlists s)\<rparr>)))"

text \<open>
  The loop of \<open>process_waitlist\<close>, for a conference that is registered under
  \<open>conference_name\<close>. Each promotion draws the next \<open>uuid4\<close> from \<open>ids\<close>. The line it
  prints for a promoted user goes to standard output and is not part of the stores.
\<close>

function process_loop :: "(nat \<Rightarrow> string) \<Rightarrow> int \<Rightarrow> string \<Rightarrow> state \<Rightarrow> state" where
  "process_loop ids now conference_name s =
     (case map_of (conferences s) conference_name of
        None \<Rightarrow> s
      | Some conference \<Rightarrow>
          if available_slots conference > 0 then
            (case waitlist conference of
               [] \<Rightarrow> s
             | waitlist_id # rest \<Rightarrow>
                 (case map_of (waitlists s) waitlist_id of
                    None \<Rightarrow>
                      s\<lparr>conferences := AList.update conference_name
                           (conference\<lparr>waitlist := rest @ [waitlist_id]\<rparr>) (conferences s)\<rparr>
                  | Some waitlist_entry \<Rightarrow>
                      if now - timestamp waitlist_entry > hours 1 then
                        process_loop (\<lambda>n. ids (Suc n)) now conference_name
                          (s\<lparr>bookings := AList.update (ids 0)
                                \<lparr>UserID = UserID waitlist_entry,
                                 Conference = conference_name, timestamp = now,
                                 booking_id = ids 0\<rparr>
                                (bookings s),
                             conferences := AList.update conference_name
                                (conference\<lparr>waitlist := rest,
                                   available_slots := available_slots conference - 1\<rparr>)
                                (conferences s),
                             waitlists := AList.delete waitlist_id (waitlists s)\<rparr>)
                      else
                        s\<lparr>conferences := AList.update conference_name
                             (conference\<lparr>waitlist := rest @ [waitlist_id]\<rparr>)
                             (conferences s)\<rparr>))
          else s)"
  by pat_completeness auto
termination
  by (relation "measure (\<lambda>(ids, now, cn, s).
        case map_of (conferences s) cn of None \<Rightarrow> 0 | Some c \<Rightarrow> length (waitlist c))")
     (auto simp: update_conv')

declare process_loop.simps [simp del]

text \<open>
  The argument of \<open>process_waitlist\<close> is whatever the caller passes: a conference name,
  or a conference dictionary. \<open>conferences.get\<close> hashes its key, and a dictionary is not
  hashable.
\<close>

datatype pyval = Str string | Dict conference

definition process_waitlist ::
  "(nat \<Rightarrow> string) \<Rightarrow> int \<Rightarrow> pyval \<Rightarrow> state \<Rightarrow> pyexc + state" where
  "process_waitlist ids now conference_name s =
     (case conference_name of
        Dict d \<Rightarrow> Inl TypeError
      | Str cn \<Rightarrow>
          (case map_of (conferences s) cn of
             None \<Rightarrow> Inr s
           | Some conference \<Rightarrow> Inr (process_loop ids now cn s)))"

text \<open>
  \<open>cancel_booking\<close> increments the slots in place, then calls \<open>process_waitlist\<close> with
  the conference dictionary it holds, then deletes the booking. Subscripting the \<open>None\<close>
  that \<open>conferences.get\<close> gives for an unknown name raises \<open>TypeError\<close>. There is no
  \<open>return\<close> after the second \<open>if\<close>.
\<close>

definition cancel_booking ::
  "(nat \<Rightarrow> string) \<Rightarrow> int \<Rightarrow> string \<Rightarrow> state \<Rightarrow> response \<times> state" where
  "cancel_booking ids now bid s =
     (case map_of (bookings s) bid of
        Some booking \<Rightarrow>
          (case map_of (conferences s) (Conference booking) of
             None \<Rightarrow> (Raises TypeError, s)
           | Some conference0 \<Rightarrow>
               let conference = conference0\<lparr>available_slots := available_slots conference0 + 1\<rparr>;
                   s1 = s\<lparr>conferences :=
                            AList.update (Conference booking) conference (conferences s)\<rparr>
               in if waitlist conference \<noteq> [] then
                    (case process_waitlist ids now (Dict conference) s1 of
                       Inl e \<Rightarrow> (Raises e, s1)
                     | Inr s2 \<Rightarrow>
                         (Message ''Booking canceled successfully.'',
                          s2\<lparr>bookings := AList.delete bid (bookings s2)\<rparr>))
                  else
                    (Message ''Booking canceled successfully.'',
                     s1\<lparr>bookings := AList.delete bid (bookings s1)\<rparr>))
      | None \<Rightarrow>
          (case map_of (waitlists s) bid of
             Some waitlist_entry \<Rightarrow>
               (Message ''Removed from waitlist successfully.'',
                s\<lparr>waitlists := AList.delete bid (waitlists s)\<rparr>)
           | None \<Rightarrow> (Returns_None, s)))"

definition booking_status :: "string \<Rightarrow> state \<Rightarrow> response" where
  "booking_status bid s =
     (case map_of (bookings s) bid of
        Some booking \<Rightarrow> Status ''Confirmed'' (Conference booking) (UserID booking)
      | None \<Rightarrow>
          (case map_of (waitlists s) bid of
             Some waitlist_entry \<Rightarrow>
               Status '' In Waitlist'' (Conference waitlist_entry) (UserID waitlist_entry)
           | None \<Rightarrow> Error 404 ''Booking ID not found.''))"

section \<open>Sequences of requests\<close>

datatype request =
    Add_user string "string option"
  | Add_conference conf_req
  | Book_conference string string
  | Confirm_waitlist_booking string
  | Cancel_booking string
  | Booking_status string

text \<open>
  One call: the ids that \<open>uuid4\<close> will give during it, the clock, and the request.
\<close>

fun handle :: "(nat \<Rightarrow> string) \<Rightarrow> int \<Rightarrow> request \<Rightarrow> state \<Rightarrow> response \<times> state" where
  "handle ids now (Add_user user_id interested) s = add_user user_id interested s"
| "handle ids now (Add_conference data) s = add_conference data s"
| "handle ids now (Book_conference conference_name user_id) s =
     book_conference (ids 0) now conference_name user_id s"
| "handle ids now (Confirm_waitlist_booking waitlist_id) s =
     confirm_waitlist_booking (ids 0) now waitlist_id s"
| "handle ids now (Cancel_booking bid) s = cancel_booking ids now bid s"
| "handle ids now (Booking_status bid) s = (booking_status bid s, s)"

type_synonym call = "(nat \<Rightarrow> string) \<times> int \<times> request"

fun run :: "call list \<Rightarrow> state \<Rightarrow> state" where
  "run [] s = s"
| "run ((ids, now, r) # calls) s = run calls (snd (handle ids now r s))"

section \<open>Properties of a state\<close>

definition slots_nonneg :: "state \<Rightarrow> bool" where
  "slots_nonneg s = list_all (\<lambda>(k, c). 0 \<le> available_slots c) (conferences s)"

text \<open>Every entry of the waitlist store sits in the queue of the conference it names.\<close>

definition queued :: "state \<Rightarrow> bool" where
  "queued s =
     list_all (\<lambda>(wid, e). case map_of (conferences s) (Conference e) of
                            None \<Rightarrow> False
                          | Some c \<Rightarrow> wid \<in> set (waitlist c))
       (waitlists s)"

text \<open>The active bookings of a conference, and of a user at a conference.\<close>

definition bookings_for :: "string \<Rightarrow> state \<Rightarrow> booking dict" where
  "bookings_for cn s = filter (\<lambda>(k, b). Conference b = cn) (bookings s)"

definition bookings_of :: "string \<Rightarrow> string \<Rightarrow> state \<Rightarrow> booking dict" where
  "bookings_of u cn s = filter (\<lambda>(k, b). UserID b = u \<and> Conference b = cn) (bookings s)"

section \<open>Scenarios\<close>

text \<open>A supply of ids: the prefix, then the prefix with one more letter each time.\<close>

definition uuids :: "string \<Rightarrow> nat \<Rightarrow> string" where
  "uuids p n = p @ replicate n CHR ''x''"

definition conf_C :: conf_req where
  "conf_C = \<lparr>name = ''C'', location = ''L'', topics = ''ai'',
             start_timestamp = Some (Aware 0), end_timestamp = Some (Aware (hours 1)),
             available_slots = 1\<rparr>"

text \<open>
  Users A and B and a conference C with one slot are registered; A books and gets the
  booking \<open>bkA\<close>; B books and gets the waitlist entry \<open>wlB\<close>. All at instant 0.
\<close>

definition capacity_one :: "call list" where
  "capacity_one =
     [(uuids [], 0, Add_user ''A'' (Some ''ai'')),
      (uuids [], 0, Add_user ''B'' (Some ''ai'')),
      (uuids [], 0, Add_conference conf_C),
      (uuids ''bkA'', 0, Book_conference ''C'' ''A''),
      (uuids ''wlB'', 0, Book_conference ''C'' ''B'')]"

text \<open>Two hours later A cancels \<open>bkA\<close>.\<close>

definition cancel_A :: call where
  "cancel_A = (uuids ''bkB'', hours 2, Cancel_booking ''bkA'')"


definition minutes :: "int \<Rightarrow> int" where
  "minutes n = n * 60000000"

text \<open>
  The quantity the specification calls conserved: the free slots of a conference plus the
  number of its active bookings.
\<close>

definition slots_plus_bookings :: "string \<Rightarrow> state \<Rightarrow> int option" where
  "slots_plus_bookings cn s =
     map_option (\<lambda>c. available_slots c + int (length (bookings_for cn s)))
       (map_of (conferences s) cn)"

text \<open>One user, one conference with one slot, one booking; no one was ever waitlisted.\<close>

definition one_booking :: "call list" where
  "one_booking =
     [(uuids [], 0, Add_user ''A'' (Some ''ai'')),
      (uuids [], 0, Add_conference conf_C),
      (uuids ''bkA'', 0, Book_conference ''C'' ''A'')]"

text \<open>
  After \<open>capacity_one\<close>: A's cancellation is sent at 0:10, B books again at 0:20, A's
  cancellation is sent once more at 0:30, and B confirms the waitlist entry at 0:40.
\<close>

definition double_booking :: "call list" where
  "double_booking = capacity_one @
     [(uuids [], minutes 10, Cancel_booking ''bkA''),
      (uuids ''bkB'', minutes 20, Book_conference ''C'' ''B''),
      (uuids [], minutes 30, Cancel_booking ''bkA''),
      (uuids ''bkB2'', minutes 40, Confirm_waitlist_booking ''wlB'')]"

text \<open>
  Users A, B and D and a conference C with one slot: A books (\<open>bkA\<close>), then B and D are
  waitlisted in that order (\<open>wlB\<close>, \<open>wlD\<close>), all at instant 0.
\<close>

definition two_waitlisted :: "call list" where
  "two_waitlisted =
     [(uuids [], 0, Add_user ''A'' (Some ''ai'')),
      (uuids [], 0, Add_user ''B'' (Some ''ai'')),
      (uuids [], 0, Add_user ''D'' (Some ''ai, ml'')),
      (uuids [], 0, Add_conference conf_C),
      (uuids ''bkA'', 0, Book_conference ''C'' ''A''),
      (uuids ''wlB'', 0, Book_conference ''C'' ''B''),
      (uuids ''wlD'', 0, Book_conference ''C'' ''D'')]"

text \<open>
  Then A's cancellation is sent at 0:10. It leaves one free slot and the queue
  \<open>[wlB, wlD]\<close>.
\<close>

definition slot_freed :: "call list" where
  "slot_freed = two_waitlisted @ [(uuids [], minutes 10, Cancel_booking ''bkA'')]"

text \<open>
  Or B leaves the waitlist at 0:05 before A's cancellation is sent at 0:10: one free slot,
  the queue \<open>[wlB, wlD]\<close>, and only \<open>wlD\<close> in the waitlist store.
\<close>

definition orphan_at_head :: "call list" where
  "orphan_at_head = two_waitlisted @
     [(uuids [], minutes 5, Cancel_booking ''wlB''),
      (uuids [], minutes 10, Cancel_booking ''bkA'')]"

definition entry_B :: wl_entry where
  "entry_B = \<lparr>UserID = ''B'', Conference = ''C'', timestamp = 0\<rparr>"

definition conference_C :: "int \<Rightarrow> string list \<Rightarrow> conference" where
  "conference_C n q =
     \<lparr>name = ''C'', location = ''L'', topics = ''ai'',
      start_timestamp = Some (Aware 0), end_timestamp = Some (Aware (hours 1)),
      available_slots = n, waitlist = q\<rparr>"

definition queue_of :: "string \<Rightarrow> state \<Rightarrow> string list option" where
  "queue_of cn s = map_option waitlist (map_of (conferences s) cn)"

definition slots_of :: "string \<Rightarrow> state \<Rightarrow> int option" where
  "slots_of cn s = map_option available_slots (map_of (conferences s) cn)"

definition queued_in :: "conference dict \<Rightarrow> wl_entry dict \<Rightarrow> bool" where
  "queued_in cs ws =
     list_all (\<lambda>(wid, e). case map_of cs (Conference e) of
                            None \<Rightarrow> False
                          | Some c \<Rightarrow> wid \<in> set (waitlist c)) ws"

section \<open>Slots never go below zero\<close>

lemma set_update_subset: "set (AList.update k v al) \<subseteq> insert (k, v) (set al)"
  by (induction al) auto

lemma list_all_update:
  "P (k, v) \<Longrightarrow> list_all P al \<Longrightarrow> list_all P (AList.update k v al)"
  using set_update_subset [of k v al] by (auto simp: list_all_iff)

lemma process_waitlist_Dict [simp]: "process_waitlist ids now (Dict d) s = Inl TypeError"
  by (simp add: process_waitlist_def)

lemma slots_nonneg_update:
  "list_all (\<lambda>(k, c). 0 \<le> available_slots c) al \<Longrightarrow> 0 \<le> available_slots c \<Longrightarrow>
   list_all (\<lambda>(k, c). 0 \<le> available_slots c) (AList.update cn c al)"
  by (simp add: list_all_update)

lemma slots_nonneg_lookup:
  "slots_nonneg s \<Longrightarrow> map_of (conferences s) cn = Some c \<Longrightarrow> 0 \<le> available_slots c"
  by (auto simp: slots_nonneg_def list_all_iff dest: map_of_SomeD)

lemma slots_nonneg_add_user: "slots_nonneg s \<Longrightarrow> slots_nonneg (snd (add_user u t s))"
  by (simp add: add_user_def slots_nonneg_def split: prod.splits bool.splits)

lemma validate_conference_slots:
  "validate_conference data = Inr (True, m) \<Longrightarrow> 0 < available_slots data"
  by (auto simp: validate_conference_def Let_def
        split: if_splits option.splits sum.splits prod.splits)

lemma slots_nonneg_add_conference:
  "slots_nonneg s \<Longrightarrow> slots_nonneg (snd (add_conference data s))"
  by (auto simp: add_conference_def slots_nonneg_def split: sum.splits prod.splits bool.splits
        dest!: validate_conference_slots intro!: slots_nonneg_update)

lemma slots_nonneg_book:
  "slots_nonneg s \<Longrightarrow> slots_nonneg (snd (book_conference uuid now cn u s))"
  using slots_nonneg_lookup [of s cn]
  by (auto simp: book_conference_def slots_nonneg_def split: option.splits
        intro!: slots_nonneg_update)

lemma slots_nonneg_confirm:
  "slots_nonneg s \<Longrightarrow> slots_nonneg (snd (confirm_waitlist_booking uuid now w s))"
  by (auto simp: confirm_waitlist_booking_def slots_nonneg_def split: option.splits
        intro!: slots_nonneg_update)

text \<open>The loop decrements only under its guard \<open>available_slots > 0\<close>.\<close>

lemma slots_nonneg_loop:
  "slots_nonneg s \<Longrightarrow> slots_nonneg (process_loop ids now cn s)"
proof (induction ids now cn s rule: process_loop.induct)
  case (1 ids now cn s)
  show ?case
  proof (cases "map_of (conferences s) cn")
    case None
    then show ?thesis using "1.prems" by (subst process_loop.simps) simp
  next
    case c: (Some c)
    show ?thesis
    proof (cases "0 < available_slots c")
      case False
      then show ?thesis using c "1.prems" by (subst process_loop.simps) simp
    next
      case True
      show ?thesis
      proof (cases "waitlist c")
        case Nil
        then show ?thesis using c True "1.prems" by (subst process_loop.simps) simp
      next
        case (Cons w rest)
        show ?thesis
        proof (cases "map_of (waitlists s) w")
          case None
          then show ?thesis using c True Cons "1.prems"
            by (subst process_loop.simps) (simp add: slots_nonneg_def slots_nonneg_update)
        next
          case e: (Some e)
          show ?thesis
          proof (cases "hours 1 < now - timestamp e")
            case False
            then show ?thesis using c True Cons e "1.prems"
              by (subst process_loop.simps) (simp add: slots_nonneg_def slots_nonneg_update)
          next
            case stale: True
            have "slots_nonneg
                    (s\<lparr>bookings := AList.update (ids 0)
                          \<lparr>UserID = UserID e, Conference = cn, timestamp = now,
                           booking_id = ids 0\<rparr>
                          (bookings s),
                       conferences := AList.update cn
                          (c\<lparr>waitlist := rest, available_slots := available_slots c - 1\<rparr>)
                          (conferences s),
                       waitlists := AList.delete w (waitlists s)\<rparr>)"
              using "1.prems" True by (simp add: slots_nonneg_def list_all_update)
            from "1.IH" [OF c True Cons e stale this]
            show ?thesis using c True Cons e stale
              by (subst process_loop.simps) simp
          qed
        qed
      qed
    qed
  qed
qed

lemma slots_nonneg_cancel:
  assumes "slots_nonneg s"
  shows "slots_nonneg (snd (cancel_booking ids now b s))"
proof (cases "map_of (bookings s) b")
  case None
  then show ?thesis using assms
    by (auto simp: cancel_booking_def slots_nonneg_def split: option.splits)
next
  case (Some bk)
  show ?thesis
  proof (cases "map_of (conferences s) (Conference bk)")
    case None
    then show ?thesis using Some assms by (simp add: cancel_booking_def)
  next
    case c: (Some c)
    have "0 \<le> available_slots c" using assms c by (rule slots_nonneg_lookup)
    then show ?thesis using Some c assms
      by (auto simp: cancel_booking_def Let_def slots_nonneg_def intro!: slots_nonneg_update)
  qed
qed

lemma slots_nonneg_handle:
  "slots_nonneg s \<Longrightarrow> slots_nonneg (snd (handle ids now r s))"
  by (cases r) (simp_all add: slots_nonneg_add_user slots_nonneg_add_conference
       slots_nonneg_book slots_nonneg_confirm slots_nonneg_cancel)

lemma slots_nonneg_run: "slots_nonneg s \<Longrightarrow> slots_nonneg (run calls s)"
  by (induction calls arbitrary: s) (auto simp: slots_nonneg_handle)

text \<open>
  C10. After any sequence of requests served from the empty stores, every conference has
  \<open>available_slots \<ge> 0\<close>; and the promotion loop, run on any state where that holds,
  ends in a state where it holds.
\<close>

theorem available_slots_nonneg:
  "slots_nonneg (run calls init)
   \<and> (slots_nonneg s \<longrightarrow> slots_nonneg (process_loop ids now cn s))"
  using slots_nonneg_run [of init calls] slots_nonneg_loop [of s ids now cn]
  by (simp add: slots_nonneg_def init_def)

theorem available_slots_nonneg_witness:
  "slots_nonneg (run (capacity_one @ [cancel_A]) init)
   \<and> slots_nonneg
       (process_loop (uuids ''bkB'') (hours 2) ''C'' (run (capacity_one @ [cancel_A]) init))"
  using available_slots_nonneg [of "capacity_one @ [cancel_A]"
          "run (capacity_one @ [cancel_A]) init" "uuids ''bkB''" "hours 2" "''C''"]
  by simp

section \<open>Cancelling a booking\<close>

text \<open>
  What \<open>cancel_booking\<close> does, case by case: an id in neither store, a booking whose
  conference has someone in its queue, a booking whose conference has an empty queue.
\<close>

lemma update_fresh: "k \<notin> fst ` set al \<Longrightarrow> AList.update k v al = al @ [(k, v)]"
  by (induction al) auto

lemma filter_delete_count:
  "distinct (map fst al) \<Longrightarrow> map_of al k = Some v \<Longrightarrow>
   length (filter P al) = length (filter P (AList.delete k al)) + (if P (k, v) then 1 else 0)"
proof (induction al)
  case Nil
  then show ?case by simp
next
  case (Cons p al)
  obtain k' v' where p: "p = (k', v')" by (cases p)
  show ?case
  proof (cases "k' = k")
    case True
    with Cons.prems p have "v' = v" and "k \<notin> fst ` set al" by auto
    then show ?thesis using True p by simp
  next
    case False
    with Cons p show ?thesis by simp
  qed
qed

lemma cancel_booking_unknown:
  "map_of (bookings s) bid = None \<Longrightarrow> map_of (waitlists s) bid = None \<Longrightarrow>
   cancel_booking ids now bid s = (Returns_None, s)"
  by (simp add: cancel_booking_def)

lemma cancel_booking_nonempty_queue:
  "map_of (bookings s) bid = Some bk \<Longrightarrow> map_of (conferences s) (Conference bk) = Some c \<Longrightarrow>
   waitlist c \<noteq> [] \<Longrightarrow>
   cancel_booking ids now bid s
     = (Raises TypeError,
        s\<lparr>conferences := AList.update (Conference bk)
              (c\<lparr>available_slots := available_slots c + 1\<rparr>) (conferences s)\<rparr>)"
  by (simp add: cancel_booking_def Let_def)

lemma cancel_booking_empty_queue:
  "map_of (bookings s) bid = Some bk \<Longrightarrow> map_of (conferences s) (Conference bk) = Some c \<Longrightarrow>
   waitlist c = [] \<Longrightarrow>
   cancel_booking ids now bid s
     = (Message ''Booking canceled successfully.'',
        s\<lparr>conferences := AList.update (Conference bk)
              (c\<lparr>available_slots := available_slots c + 1\<rparr>) (conferences s),
          bookings := AList.delete bid (bookings s)\<rparr>)"
  by (simp add: cancel_booking_def Let_def)

text \<open>
  A request that returns (with a body or with \<open>None\<close>) keeps, for every registered
  conference, the sum of free slots and active bookings, provided the id it draws is not
  the key of a booking. So does the promotion loop when it draws distinct ids that are not
  keys of bookings.
\<close>

lemma conservation_unless_raised:
  assumes d: "distinct (map fst (bookings s))"
    and fresh: "ids 0 \<notin> fst ` set (bookings s)"
    and h: "handle ids now r s = (resp, s')"
    and nr: "\<And>x. resp \<noteq> Raises x"
    and c: "map_of (conferences s) cn = Some c"
  shows "slots_plus_bookings cn s' = slots_plus_bookings cn s"
proof (cases r)
  case (Add_user u t)
  then show ?thesis using h
    by (auto simp: add_user_def slots_plus_bookings_def bookings_for_def
          split: prod.splits bool.splits if_splits)
next
  case (Add_conference data)
  then show ?thesis using h c
    by (auto simp: add_conference_def slots_plus_bookings_def bookings_for_def update_conv'
          split: sum.splits prod.splits bool.splits if_splits)
next
  case (Book_conference cn' u)
  then show ?thesis using h c fresh
    by (auto simp: book_conference_def slots_plus_bookings_def bookings_for_def update_conv'
          update_fresh split: option.splits if_splits)
next
  case (Confirm_waitlist_booking w)
  then show ?thesis using h c fresh
    by (auto simp: confirm_waitlist_booking_def slots_plus_bookings_def bookings_for_def
          update_conv' update_fresh split: option.splits if_splits)
next
  case (Booking_status b)
  then show ?thesis using h by auto
next
  case (Cancel_booking bid)
  show ?thesis
  proof (cases "map_of (bookings s) bid")
    case None
    then show ?thesis using h Cancel_booking
      by (auto simp: cancel_booking_def slots_plus_bookings_def bookings_for_def
            split: option.splits)
  next
    case bk: (Some bk)
    show ?thesis
    proof (cases "map_of (conferences s) (Conference bk)")
      case None
      then show ?thesis using h Cancel_booking bk nr by (auto simp: cancel_booking_def)
    next
      case c0: (Some c0)
      show ?thesis
      proof (cases "waitlist c0 = []")
        case False
        then show ?thesis
          using h Cancel_booking nr cancel_booking_nonempty_queue [OF bk c0 False, of ids now]
          by auto
      next
        case True
        have s': "s' = s\<lparr>conferences := AList.update (Conference bk)
              (c0\<lparr>available_slots := available_slots c0 + 1\<rparr>) (conferences s),
          bookings := AList.delete bid (bookings s)\<rparr>"
          using h Cancel_booking cancel_booking_empty_queue [OF bk c0 True, of ids now] by simp
        have n: "length (filter (\<lambda>(k, b). Conference b = cn) (bookings s))
             = length (filter (\<lambda>(k, b). Conference b = cn) (AList.delete bid (bookings s)))
               + (if Conference bk = cn then 1 else 0)"
          using filter_delete_count [OF d bk, of "\<lambda>(k, b). Conference b = cn"] by simp
        show ?thesis using s' c c0 n
          by (auto simp: slots_plus_bookings_def bookings_for_def update_conv')
      qed
    qed
  qed
qed

lemma conservation_promotion:
  assumes "inj ids" and "\<And>n. ids n \<notin> fst ` set (bookings s)"
  shows "slots_plus_bookings cn' (process_loop ids now cn s) = slots_plus_bookings cn' s"
  using assms
proof (induction ids now cn s rule: process_loop.induct)
  case (1 ids now cn s)
  show ?case
  proof (cases "map_of (conferences s) cn")
    case None
    then show ?thesis by (subst process_loop.simps) simp
  next
    case c: (Some c)
    show ?thesis
    proof (cases "0 < available_slots c")
      case False
      then show ?thesis using c by (subst process_loop.simps) simp
    next
      case True
      show ?thesis
      proof (cases "waitlist c")
        case Nil
        then show ?thesis using c True by (subst process_loop.simps) simp
      next
        case (Cons w rest)
        show ?thesis
        proof (cases "map_of (waitlists s) w")
          case None
          then show ?thesis using c True Cons
            by (subst process_loop.simps)
               (auto simp: slots_plus_bookings_def bookings_for_def update_conv')
        next
          case e: (Some e)
          show ?thesis
          proof (cases "hours 1 < now - timestamp e")
            case False
            then show ?thesis using c True Cons e
              by (subst process_loop.simps)
                 (auto simp: slots_plus_bookings_def bookings_for_def update_conv')
          next
            case stale: True
            let ?s1 = "s\<lparr>bookings := AList.update (ids 0)
                          \<lparr>UserID = UserID e, Conference = cn, timestamp = now,
                           booking_id = ids 0\<rparr>
                          (bookings s),
                       conferences := AList.update cn
                          (c\<lparr>waitlist := rest, available_slots := available_slots c - 1\<rparr>)
                          (conferences s),
                       waitlists := AList.delete w (waitlists s)\<rparr>"
            have i: "inj (\<lambda>n. ids (Suc n))"
              using "1.prems"(1) by (auto simp: inj_def)
            have b1: "bookings ?s1 = bookings s @ [(ids 0,
                          \<lparr>UserID = UserID e, Conference = cn, timestamp = now,
                           booking_id = ids 0\<rparr>)]"
              using "1.prems"(2) [of 0] by (simp add: update_fresh)
            have f: "ids (Suc n) \<notin> fst ` set (bookings ?s1)" for n
            proof -
              have "ids (Suc n) \<noteq> ids 0" using "1.prems"(1) by (auto simp: inj_def)
              then show ?thesis using "1.prems"(2) [of "Suc n"] unfolding b1 by auto
            qed
            have step: "slots_plus_bookings cn' ?s1 = slots_plus_bookings cn' s"
              using c unfolding slots_plus_bookings_def bookings_for_def b1
              by (auto simp: update_conv')
            have "slots_plus_bookings cn' (process_loop (\<lambda>n. ids (Suc n)) now cn ?s1)
                    = slots_plus_bookings cn' ?s1"
              using "1.IH" [OF c True Cons e stale i f] .
            then show ?thesis using c True Cons e stale step
              by (subst process_loop.simps) simp
          qed
        qed
      qed
    qed
  qed
qed

text \<open>
  C1. Conservation: \<open>available_slots\<close> of a conference plus the number of its active
  bookings stays at the capacity it was registered with. Evaluated on the capacity-1
  scenario: the sum is 1 before A cancels and 2 after, because the cancellation has
  incremented the slots when \<open>process_waitlist\<close> raises, and the booking is still there.
\<close>

theorem conservation_lost_on_cancel:
  "available_slots conf_C = 1
   \<and> slots_plus_bookings ''C'' (run capacity_one init) = Some 1
   \<and> slots_plus_bookings ''C'' (run (capacity_one @ [cancel_A]) init) = Some 2"
  by code_simp

text \<open>
  C2. Cancelling an active booking whose conference has a waitlist frees the slot,
  deletes the booking and promotes from the waitlist. Evaluated on the capacity-1
  scenario, two hours after B was waitlisted: the call raises \<open>TypeError\<close>, A's booking
  is still in the store, B has no booking, B's entry is still waitlisted and the
  conference shows one free slot.
\<close>

theorem cancel_with_waitlist_raises:
  "fst (handle (uuids ''bkB'') (hours 2) (Cancel_booking ''bkA'') (run capacity_one init))
     = Raises TypeError
   \<and> map fst (bookings (snd (handle (uuids ''bkB'') (hours 2) (Cancel_booking ''bkA'')
                               (run capacity_one init)))) = [''bkA'']
   \<and> bookings_of ''B'' ''C'' (snd (handle (uuids ''bkB'') (hours 2) (Cancel_booking ''bkA'')
                               (run capacity_one init))) = []
   \<and> map fst (waitlists (snd (handle (uuids ''bkB'') (hours 2) (Cancel_booking ''bkA'')
                               (run capacity_one init)))) = [''wlB'']
   \<and> map_option available_slots
        (map_of (conferences (snd (handle (uuids ''bkB'') (hours 2) (Cancel_booking ''bkA'')
                               (run capacity_one init)))) ''C'') = Some 1"
  by code_simp

text \<open>
  C3. Cancelling an id that is neither a booking nor a waitlist entry answers
  \<open>NotFound\<close>. Evaluated on an id never issued, and on a second cancellation of a
  booking that the first one removed: the first answers with its success message, and
  both of the others return \<open>None\<close>, not an error body.
\<close>

theorem cancel_unknown_id_returns_None:
  "cancel_booking (uuids []) 0 ''nope'' init = (Returns_None, init)
   \<and> fst (handle (uuids []) (hours 2) (Cancel_booking ''bkA'') (run one_booking init))
       = Message ''Booking canceled successfully.''
   \<and> fst (handle (uuids []) (hours 3) (Cancel_booking ''bkA'')
            (run (one_booking @ [(uuids [], hours 2, Cancel_booking ''bkA'')]) init))
       = Returns_None
   \<and> booking_status ''nope'' init = Error 404 ''Booking ID not found.''"
  by code_simp

section \<open>One booking for a user at a conference\<close>

text \<open>
  The scan of \<open>book_conference\<close>: a request for a pair that has a booking is refused and
  writes nothing.
\<close>

lemma book_conference_duplicate:
  assumes "map_of (conferences s) cn = Some c" and "map_of (users s) u = Some usr"
    and "bookings_of u cn s \<noteq> []"
  shows "book_conference uuid now cn u s
           = (Error 400 ''User already has a booking for this conference.'', s)"
proof -
  have "list_ex (\<lambda>(k, b). UserID b = u \<and> Conference b = cn) (bookings s)"
    using assms(3) by (auto simp: bookings_of_def list_ex_iff filter_empty_conv)
  then show ?thesis using assms(1,2) by (simp add: book_conference_def)
qed

text \<open>
  C8. At most one active booking for a user at a conference. Evaluated on
  \<open>double_booking\<close>: B ends with the two bookings \<open>bkB\<close> and \<open>bkB2\<close> for conference C,
  the second made by \<open>confirm_waitlist_booking\<close>, which does not scan the bookings.
\<close>

theorem confirm_makes_second_booking:
  "map fst (bookings_of ''B'' ''C'' (run double_booking init)) = [''bkB'', ''bkB2'']"
  by code_simp

section \<open>Confirming a waitlist entry\<close>

text \<open>
  Every entry of the waitlist store is in the queue of its conference, in every state
  that requests can reach: \<open>list.remove\<close> in the expired branch finds its argument.
\<close>

lemma queued_queued_in: "queued s = queued_in (conferences s) (waitlists s)"
  by (simp add: queued_def queued_in_def)

lemma queued_in_iff:
  "queued_in cs ws \<longleftrightarrow>
     (\<forall>wid e. (wid, e) \<in> set ws \<longrightarrow>
        (\<exists>c. map_of cs (Conference e) = Some c \<and> wid \<in> set (waitlist c)))"
  unfolding queued_in_def list_all_iff
proof (intro iffI allI impI ballI)
  fix wid e
  assume a: "\<forall>x\<in>set ws. case x of (wid, e) \<Rightarrow>
      (case map_of cs (Conference e) of None \<Rightarrow> False | Some c \<Rightarrow> wid \<in> set (waitlist c))"
    and m: "(wid, e) \<in> set ws"
  from a m have "case map_of cs (Conference e) of None \<Rightarrow> False | Some c \<Rightarrow> wid \<in> set (waitlist c)"
    by fastforce
  then show "\<exists>c. map_of cs (Conference e) = Some c \<and> wid \<in> set (waitlist c)"
    by (cases "map_of cs (Conference e)") simp_all
next
  fix x
  assume a: "\<forall>wid e. (wid, e) \<in> set ws \<longrightarrow>
        (\<exists>c. map_of cs (Conference e) = Some c \<and> wid \<in> set (waitlist c))"
    and m: "x \<in> set ws"
  obtain wid e where x: "x = (wid, e)" by (cases x)
  with a m obtain c where "map_of cs (Conference e) = Some c" "wid \<in> set (waitlist c)"
    by blast
  with x show "case x of (wid, e) \<Rightarrow>
      (case map_of cs (Conference e) of None \<Rightarrow> False | Some c \<Rightarrow> wid \<in> set (waitlist c))"
    by simp
qed

lemma set_requeue: "set q \<subseteq> set (remove1 w q @ [w])"
proof
  fix x assume "x \<in> set q"
  then show "x \<in> set (remove1 w q @ [w])"
    by (cases "x = w") (simp_all add: in_set_remove1)
qed

lemma set_delete_subset: "set (AList.delete k al) \<subseteq> set al"
  by (auto simp: AList.delete_eq)

lemma qi_delete: "queued_in cs ws \<Longrightarrow> queued_in cs (AList.delete k ws)"
  using set_delete_subset [of k ws] unfolding queued_in_iff by blast

lemma qi_conf_update:
  assumes "queued_in cs ws" and "map_of cs cn = Some c"
    and "set (waitlist c) \<subseteq> set (waitlist c')"
  shows "queued_in (AList.update cn c' cs) ws"
  unfolding queued_in_iff
proof (intro allI impI)
  fix wid e assume "(wid, e) \<in> set ws"
  with assms(1) obtain d where d: "map_of cs (Conference e) = Some d" "wid \<in> set (waitlist d)"
    unfolding queued_in_iff by blast
  show "\<exists>c. map_of (AList.update cn c' cs) (Conference e) = Some c \<and> wid \<in> set (waitlist c)"
  proof (cases "Conference e = cn")
    case True
    with d assms(2,3) show ?thesis by (auto simp: update_conv')
  next
    case False
    with d show ?thesis by (simp add: update_conv')
  qed
qed

lemma qi_conf_new:
  assumes "queued_in cs ws" and "map_of cs cn = None"
  shows "queued_in (AList.update cn c' cs) ws"
  unfolding queued_in_iff
proof (intro allI impI)
  fix wid e assume "(wid, e) \<in> set ws"
  with assms(1) obtain d where d: "map_of cs (Conference e) = Some d" "wid \<in> set (waitlist d)"
    unfolding queued_in_iff by blast
  with assms(2) have "Conference e \<noteq> cn" by auto
  with d show "\<exists>c. map_of (AList.update cn c' cs) (Conference e) = Some c \<and> wid \<in> set (waitlist c)"
    by (simp add: update_conv')
qed

lemma qi_wl_update:
  assumes "queued_in cs ws" and "map_of cs (Conference e) = Some c"
    and "wid \<in> set (waitlist c)"
  shows "queued_in cs (AList.update wid e ws)"
  using assms set_update_subset [of wid e ws] unfolding queued_in_iff by blast

lemma queued_lookup:
  "queued s \<Longrightarrow> map_of (waitlists s) wid = Some e \<Longrightarrow>
   \<exists>c. map_of (conferences s) (Conference e) = Some c \<and> wid \<in> set (waitlist c)"
  unfolding queued_queued_in queued_in_iff by (blast dest: map_of_SomeD)

lemma queued_init: "queued init"
  by (simp add: queued_def init_def)

lemma queued_add_user: "queued s \<Longrightarrow> queued (snd (add_user u t s))"
  by (simp add: add_user_def queued_def split: prod.splits bool.splits)

lemma queued_add_conference: "queued s \<Longrightarrow> queued (snd (add_conference data s))"
  by (auto simp: add_conference_def queued_queued_in intro: qi_conf_new
        split: sum.splits prod.splits bool.splits)

lemma queued_book:
  assumes "queued s"
  shows "queued (snd (book_conference uuid now cn u s))"
proof (cases "map_of (conferences s) cn")
  case None
  then show ?thesis using assms by (simp add: book_conference_def)
next
  case (Some c)
  let ?c' = "c\<lparr>waitlist := waitlist c @ [uuid]\<rparr>"
  let ?e = "\<lparr>UserID = u, Conference = cn, timestamp = now\<rparr>"
  have q: "queued_in (conferences s) (waitlists s)" using assms by (simp add: queued_queued_in)
  have 1: "queued_in (AList.update cn ?c' (conferences s)) (waitlists s)"
    using q Some by (rule qi_conf_update) auto
  have 2: "queued_in (AList.update cn ?c' (conferences s)) (AList.update uuid ?e (waitlists s))"
    using 1 by (rule qi_wl_update [where c = ?c']) (simp_all add: update_conv')
  have 3: "queued_in (AList.update cn (c\<lparr>available_slots := available_slots c - 1\<rparr>) (conferences s))
             (waitlists s)"
    using q Some by (rule qi_conf_update) simp
  show ?thesis using Some assms 2 3 by (simp add: book_conference_def queued_queued_in)
qed

lemma queued_confirm:
  assumes "queued s"
  shows "queued (snd (confirm_waitlist_booking uuid now w s))"
proof (cases "map_of (waitlists s) w")
  case None
  then show ?thesis using assms by (simp add: confirm_waitlist_booking_def)
next
  case e: (Some e)
  show ?thesis
  proof (cases "map_of (conferences s) (Conference e)")
    case None
    then show ?thesis using e assms by (simp add: confirm_waitlist_booking_def)
  next
    case c: (Some c)
    have q: "queued_in (conferences s) (waitlists s)" using assms by (simp add: queued_queued_in)
    have 1: "w \<in> set (waitlist c) \<Longrightarrow>
             queued_in (AList.update (Conference e)
                 (c\<lparr>waitlist := remove1 w (waitlist c) @ [w]\<rparr>) (conferences s)) (waitlists s)"
      using q c by (rule qi_conf_update) (use set_requeue [of "waitlist c" w] in simp)
    have "queued_in (AList.update (Conference e)
             (c\<lparr>available_slots := available_slots c - 1\<rparr>) (conferences s)) (waitlists s)"
      using q c by (rule qi_conf_update) simp
    then have 2: "queued_in (AList.update (Conference e)
             (c\<lparr>available_slots := available_slots c - 1\<rparr>) (conferences s))
             (AList.delete w (waitlists s))"
      by (rule qi_delete)
    show ?thesis using e c assms 1 2
      by (simp add: confirm_waitlist_booking_def queued_queued_in)
  qed
qed

lemma queued_cancel:
  assumes "queued s"
  shows "queued (snd (cancel_booking ids now b s))"
proof (cases "map_of (bookings s) b")
  case None
  have "queued_in (conferences s) (AList.delete b (waitlists s))"
    using assms by (simp add: queued_queued_in qi_delete)
  then show ?thesis using None assms
    by (simp add: cancel_booking_def queued_queued_in split: option.splits)
next
  case bk: (Some bk)
  show ?thesis
  proof (cases "map_of (conferences s) (Conference bk)")
    case None
    then show ?thesis using bk assms by (simp add: cancel_booking_def)
  next
    case c: (Some c)
    have q: "queued_in (conferences s) (waitlists s)" using assms by (simp add: queued_queued_in)
    have "queued_in (AList.update (Conference bk)
             (c\<lparr>available_slots := available_slots c + 1\<rparr>) (conferences s)) (waitlists s)"
      using q c by (rule qi_conf_update) simp
    then show ?thesis using bk c
      by (simp add: cancel_booking_def queued_queued_in Let_def)
  qed
qed

lemma queued_handle: "queued s \<Longrightarrow> queued (snd (handle ids now r s))"
  by (cases r) (simp_all add: queued_add_user queued_add_conference queued_book
       queued_confirm queued_cancel)

lemma queued_run: "queued s \<Longrightarrow> queued (run calls s)"
  by (induction calls arbitrary: s) (auto simp: queued_handle)

text \<open>
  C5. For a live waitlist entry whose conference has a free slot and which was enqueued
  more than one hour before \<open>now\<close>, confirmation answers 400 "Confirmation window
  expired"; the waitlist store (and with it the entry and its timestamp) is as before, and
  in the conference's queue the id has moved to the tail. Nothing else changes.
\<close>

theorem confirm_expired_requeues:
  assumes "map_of (waitlists (run calls init)) wid = Some e"
    and "map_of (conferences (run calls init)) (Conference e) = Some c"
    and "0 < available_slots c"
    and "hours 1 < now - timestamp e"
  shows "confirm_waitlist_booking uuid now wid (run calls init)
           = (Error 400 ''Confirmation window expired. Moved to end of waitlist.'',
              (run calls init)\<lparr>conferences := AList.update (Conference e)
                  (c\<lparr>waitlist := remove1 wid (waitlist c) @ [wid]\<rparr>)
                  (conferences (run calls init))\<rparr>)"
proof -
  have "queued (run calls init)" by (rule queued_run [OF queued_init])
  from queued_lookup [OF this assms(1)] assms(2) have "wid \<in> set (waitlist c)" by simp
  then show ?thesis using assms by (simp add: confirm_waitlist_booking_def)
qed

theorem confirm_expired_requeues_witness:
  "map_of (waitlists (run slot_freed init)) ''wlB'' = Some entry_B
   \<and> map_of (conferences (run slot_freed init)) (Conference entry_B)
        = Some (conference_C 1 [''wlB'', ''wlD''])
   \<and> confirm_waitlist_booking ''bkB'' (hours 2) ''wlB'' (run slot_freed init)
        = (Error 400 ''Confirmation window expired. Moved to end of waitlist.'',
           (run slot_freed init)\<lparr>conferences := [(''C'', conference_C 1 [''wlD'', ''wlB''])]\<rparr>)"
proof -
  have h1: "map_of (waitlists (run slot_freed init)) ''wlB'' = Some entry_B" by code_simp
  have h2: "map_of (conferences (run slot_freed init)) (Conference entry_B)
              = Some (conference_C 1 [''wlB'', ''wlD''])" by code_simp
  have h3: "0 < available_slots (conference_C 1 [''wlB'', ''wlD''])" by code_simp
  have h4: "hours 1 < hours 2 - timestamp entry_B" by code_simp
  have c: "conferences (run slot_freed init) = [(''C'', conference_C 1 [''wlB'', ''wlD''])]"
    by code_simp
  show ?thesis
    using confirm_expired_requeues [OF h1 h2 h3 h4, of "''bkB''"] h1 h2
    by (simp add: c entry_B_def conference_C_def)
qed

text \<open>
  What an accepted confirmation computes: for a live waitlist entry whose conference has a
  free slot and which was enqueued at most one hour before \<open>now\<close>, the result is the new
  id and the state with one slot fewer, a booking for the entry's user under the new id,
  and the entry deleted from the waitlist store. The conferences are updated in
  \<open>available_slots\<close> only.
\<close>

lemma confirm_accepted:
  assumes "map_of (waitlists s) wid = Some e"
    and "map_of (conferences s) (Conference e) = Some c"
    and "0 < available_slots c"
    and "now - timestamp e \<le> hours 1"
  shows "confirm_waitlist_booking uuid now wid s
           = (Booking_confirmed uuid,
              s\<lparr>bookings := AList.update uuid
                    \<lparr>UserID = UserID e, Conference = Conference e, timestamp = now,
                     booking_id = uuid\<rparr> (bookings s),
                conferences := AList.update (Conference e)
                    (c\<lparr>available_slots := available_slots c - 1\<rparr>) (conferences s),
                waitlists := AList.delete wid (waitlists s)\<rparr>)"
  using assms by (simp add: confirm_waitlist_booking_def)

lemma confirm_accepted_example:
  "map_of (waitlists (run slot_freed init)) ''wlB'' = Some entry_B
   \<and> map_of (conferences (run slot_freed init)) (Conference entry_B)
        = Some (conference_C 1 [''wlB'', ''wlD''])
   \<and> fst (confirm_waitlist_booking ''bkB'' (minutes 20) ''wlB'' (run slot_freed init))
        = Booking_confirmed ''bkB''"
proof -
  have h1: "map_of (waitlists (run slot_freed init)) ''wlB'' = Some entry_B" by code_simp
  have h2: "map_of (conferences (run slot_freed init)) (Conference entry_B)
              = Some (conference_C 1 [''wlB'', ''wlD''])" by code_simp
  have h3: "0 < available_slots (conference_C 1 [''wlB'', ''wlD''])" by code_simp
  have h4: "minutes 20 - timestamp entry_B \<le> hours 1" by code_simp
  show ?thesis
    using confirm_accepted [OF h1 h2 h3 h4, of "''bkB''"] h1 h2 by simp
qed

text \<open>
  C4. An accepted confirmation decrements \<open>available_slots\<close>, creates a booking for the
  entry's user, removes the entry from the waitlist store and from the conference's
  queue, and returns the new booking id. Evaluated after \<open>slot_freed\<close>, with B confirming
  \<open>wlB\<close> at 0:20: the booking is made and the entry is gone from the store, but the queue
  still reads \<open>[wlB, wlD]\<close>. The promotion branch of \<open>process_waitlist\<close> takes the id out
  of the queue when it promotes; this branch does not.
\<close>

theorem confirmed_id_stays_in_queue:
  "fst (handle (uuids ''bkB'') (minutes 20) (Confirm_waitlist_booking ''wlB'')
          (run slot_freed init)) = Booking_confirmed ''bkB''
   \<and> map_of (waitlists (snd (handle (uuids ''bkB'') (minutes 20)
          (Confirm_waitlist_booking ''wlB'') (run slot_freed init)))) ''wlB'' = None
   \<and> queue_of ''C'' (snd (handle (uuids ''bkB'') (minutes 20)
          (Confirm_waitlist_booking ''wlB'') (run slot_freed init))) = Some [''wlB'', ''wlD'']"
  by code_simp

text \<open>
  What the id left behind does later. In the capacity-1 scenario A's cancellation is sent
  at 0:10 and B confirms \<open>wlB\<close> at 0:20. Nobody is waitlisted any more, yet the queue of C
  still holds \<open>wlB\<close>, and when B cancels the new booking at 0:30 the call raises.
\<close>

lemma confirmed_id_makes_cancel_raise:
  "waitlists (run (capacity_one @
        [(uuids [], minutes 10, Cancel_booking ''bkA''),
         (uuids ''bkB'', minutes 20, Confirm_waitlist_booking ''wlB'')]) init) = []
   \<and> queue_of ''C'' (run (capacity_one @
        [(uuids [], minutes 10, Cancel_booking ''bkA''),
         (uuids ''bkB'', minutes 20, Confirm_waitlist_booking ''wlB'')]) init) = Some [''wlB'']
   \<and> fst (handle (uuids []) (minutes 30) (Cancel_booking ''bkB'')
        (run (capacity_one @
          [(uuids [], minutes 10, Cancel_booking ''bkA''),
           (uuids ''bkB'', minutes 20, Confirm_waitlist_booking ''wlB'')]) init))
       = Raises TypeError"
  by code_simp

section \<open>Requests that are refused\<close>




section \<open>Ids left in a queue\<close>

text \<open>
  C9, as the code has it. Cancelling a waitlist entry deletes it from the waitlist store
  and leaves the conferences, so also the queue holding its id, untouched. The promotion
  loop, meeting at the head of the queue an id with no entry in the store, does what it
  does with a head that is not eligible: it puts the id back at the tail and stops. No
  entry behind it is looked at in that pass.
\<close>

theorem orphan_requeued:
  "(map_of (bookings s) wid = None \<and> map_of (waitlists s) wid = Some e \<longrightarrow>
      cancel_booking ids now wid s
        = (Message ''Removed from waitlist successfully.'',
           s\<lparr>waitlists := AList.delete wid (waitlists s)\<rparr>))
   \<and> (map_of (conferences s) cn = Some c \<and> 0 < available_slots c \<and> waitlist c = w # rest
        \<and> map_of (waitlists s) w = None \<longrightarrow>
      process_waitlist ids now (Str cn) s
        = Inr (s\<lparr>conferences :=
                   AList.update cn (c\<lparr>waitlist := rest @ [w]\<rparr>) (conferences s)\<rparr>))"
proof (intro conjI impI)
  assume "map_of (bookings s) wid = None \<and> map_of (waitlists s) wid = Some e"
  then show "cancel_booking ids now wid s
        = (Message ''Removed from waitlist successfully.'',
           s\<lparr>waitlists := AList.delete wid (waitlists s)\<rparr>)"
    by (simp add: cancel_booking_def)
next
  assume a: "map_of (conferences s) cn = Some c \<and> 0 < available_slots c \<and> waitlist c = w # rest
        \<and> map_of (waitlists s) w = None"
  then have "process_loop ids now cn s
        = s\<lparr>conferences := AList.update cn (c\<lparr>waitlist := rest @ [w]\<rparr>) (conferences s)\<rparr>"
    by (subst process_loop.simps) simp
  with a show "process_waitlist ids now (Str cn) s
        = Inr (s\<lparr>conferences :=
                   AList.update cn (c\<lparr>waitlist := rest @ [w]\<rparr>) (conferences s)\<rparr>)"
    by (simp add: process_waitlist_def)
qed

theorem orphan_requeued_witness:
  "map_of (bookings (run two_waitlisted init)) ''wlB'' = None
   \<and> map_of (waitlists (run two_waitlisted init)) ''wlB'' = Some entry_B
   \<and> fst (cancel_booking (uuids []) (minutes 5) ''wlB'' (run two_waitlisted init))
       = Message ''Removed from waitlist successfully.''
   \<and> queue_of ''C'' (snd (cancel_booking (uuids []) (minutes 5) ''wlB''
                              (run two_waitlisted init))) = Some [''wlB'', ''wlD'']
   \<and> map_of (conferences (run orphan_at_head init)) ''C''
       = Some (conference_C 1 [''wlB'', ''wlD''])
   \<and> map_of (waitlists (run orphan_at_head init)) ''wlB'' = None
   \<and> process_waitlist (uuids ''bkD'') (hours 2) (Str ''C'') (run orphan_at_head init)
       = Inr ((run orphan_at_head init)
                \<lparr>conferences := [(''C'', conference_C 1 [''wlD'', ''wlB''])]\<rparr>)"
proof -
  have h1: "map_of (bookings (run two_waitlisted init)) ''wlB'' = None
            \<and> map_of (waitlists (run two_waitlisted init)) ''wlB'' = Some entry_B"
    by code_simp
  have h2: "map_of (conferences (run orphan_at_head init)) ''C''
              = Some (conference_C 1 [''wlB'', ''wlD''])
            \<and> 0 < available_slots (conference_C 1 [''wlB'', ''wlD''])
            \<and> waitlist (conference_C 1 [''wlB'', ''wlD'']) = ''wlB'' # [''wlD'']
            \<and> map_of (waitlists (run orphan_at_head init)) ''wlB'' = None"
    by code_simp
  have q: "queue_of ''C'' (run two_waitlisted init) = Some [''wlB'', ''wlD'']" by code_simp
  have c: "conferences (run orphan_at_head init) = [(''C'', conference_C 1 [''wlB'', ''wlD''])]"
    by code_simp
  from orphan_requeued [where s = "run two_waitlisted init" and wid = "''wlB''" and e = entry_B
      and ids = "uuids []" and now = "minutes 5"]
    h1
  have a: "cancel_booking (uuids []) (minutes 5) ''wlB'' (run two_waitlisted init)
        = (Message ''Removed from waitlist successfully.'',
           (run two_waitlisted init)\<lparr>waitlists :=
              AList.delete ''wlB'' (waitlists (run two_waitlisted init))\<rparr>)"
    by blast
  from orphan_requeued [where s = "run orphan_at_head init" and cn = "''C''"
      and c = "conference_C 1 [''wlB'', ''wlD'']" and w = "''wlB''" and rest = "[''wlD'']"
      and ids = "uuids ''bkD''" and now = "hours 2"] h2
  have b: "process_waitlist (uuids ''bkD'') (hours 2) (Str ''C'') (run orphan_at_head init)
        = Inr ((run orphan_at_head init)\<lparr>conferences :=
                   AList.update ''C'' (conference_C 1 [''wlB'', ''wlD'']\<lparr>waitlist := [''wlD''] @ [''wlB'']\<rparr>)
                     (conferences (run orphan_at_head init))\<rparr>)"
    by blast
  show ?thesis using h1 h2 a b q by (simp add: c queue_of_def conference_C_def)
qed

text \<open>
  C9 as stated has an orphaned id not block the entries behind it. In \<open>orphan_at_head\<close>
  the queue of C is \<open>[wlB, wlD]\<close> with \<open>wlB\<close> orphaned, \<open>wlD\<close> live and two hours old, and
  one slot free. A promotion pass ends with D not booked, \<open>wlD\<close> still waitlisted, the
  slot still free, and the queue \<open>[wlD, wlB]\<close>.
\<close>

theorem orphan_head_blocks_promotion:
  "map_of (waitlists (run orphan_at_head init)) ''wlB'' = None
   \<and> queue_of ''C'' (run orphan_at_head init) = Some [''wlB'', ''wlD'']
   \<and> slots_of ''C'' (run orphan_at_head init) = Some 1
   \<and> map_option timestamp (map_of (waitlists (run orphan_at_head init)) ''wlD'') = Some 0
   \<and> process_waitlist (uuids ''bkD'') (hours 2) (Str ''C'') (run orphan_at_head init)
       = Inr (process_loop (uuids ''bkD'') (hours 2) ''C'' (run orphan_at_head init))
   \<and> bookings_of ''D'' ''C''
        (process_loop (uuids ''bkD'') (hours 2) ''C'' (run orphan_at_head init)) = []
   \<and> map fst (waitlists
        (process_loop (uuids ''bkD'') (hours 2) ''C'' (run orphan_at_head init))) = [''wlD'']
   \<and> slots_of ''C''
        (process_loop (uuids ''bkD'') (hours 2) ''C'' (run orphan_at_head init)) = Some 1
   \<and> queue_of ''C''
        (process_loop (uuids ''bkD'') (hours 2) ''C'' (run orphan_at_head init))
       = Some [''wlD'', ''wlB'']"
  by code_simp

section \<open>The promotion loop\<close>

text \<open>
  C7. For a registered conference, \<open>process_waitlist\<close> runs the loop. The loop does
  nothing when no slot is free or the queue is empty. Otherwise it pops the head: a head
  entry enqueued more than one hour before \<open>now\<close> is promoted (a booking for its user
  under a new id, one slot fewer, the entry deleted from the waitlist store) and the loop
  goes on with the rest of the queue; a head entry that is not that old is put back at the
  tail and the loop ends there, so the pass leaves bookings, waitlist store and slots as
  they were and no entry behind that head is promoted.
\<close>

theorem promotion_loop:
  assumes "map_of (conferences s) cn = Some c"
  shows "process_waitlist ids now (Str cn) s = Inr (process_loop ids now cn s)
   \<and> (available_slots c \<le> 0 \<or> waitlist c = [] \<longrightarrow> process_loop ids now cn s = s)
   \<and> (0 < available_slots c \<and> waitlist c = w # rest \<and> map_of (waitlists s) w = Some e
        \<and> hours 1 < now - timestamp e \<longrightarrow>
      process_loop ids now cn s
        = process_loop (\<lambda>n. ids (Suc n)) now cn
            (s\<lparr>bookings := AList.update (ids 0)
                   \<lparr>UserID = UserID e, Conference = cn, timestamp = now, booking_id = ids 0\<rparr>
                   (bookings s),
               conferences := AList.update cn
                   (c\<lparr>waitlist := rest, available_slots := available_slots c - 1\<rparr>)
                   (conferences s),
               waitlists := AList.delete w (waitlists s)\<rparr>))
   \<and> (0 < available_slots c \<and> waitlist c = w # rest \<and> map_of (waitlists s) w = Some e
        \<and> now - timestamp e \<le> hours 1 \<longrightarrow>
      process_loop ids now cn s
        = s\<lparr>conferences := AList.update cn (c\<lparr>waitlist := rest @ [w]\<rparr>) (conferences s)\<rparr>)"
proof (intro conjI impI)
  show "process_waitlist ids now (Str cn) s = Inr (process_loop ids now cn s)"
    using assms by (simp add: process_waitlist_def)
next
  assume "available_slots c \<le> 0 \<or> waitlist c = []"
  then show "process_loop ids now cn s = s"
    using assms by (subst process_loop.simps) auto
next
  assume "0 < available_slots c \<and> waitlist c = w # rest \<and> map_of (waitlists s) w = Some e
        \<and> hours 1 < now - timestamp e"
  then show "process_loop ids now cn s
        = process_loop (\<lambda>n. ids (Suc n)) now cn
            (s\<lparr>bookings := AList.update (ids 0)
                   \<lparr>UserID = UserID e, Conference = cn, timestamp = now, booking_id = ids 0\<rparr>
                   (bookings s),
               conferences := AList.update cn
                   (c\<lparr>waitlist := rest, available_slots := available_slots c - 1\<rparr>)
                   (conferences s),
               waitlists := AList.delete w (waitlists s)\<rparr>)"
    using assms by (subst process_loop.simps) simp
next
  assume "0 < available_slots c \<and> waitlist c = w # rest \<and> map_of (waitlists s) w = Some e
        \<and> now - timestamp e \<le> hours 1"
  then show "process_loop ids now cn s
        = s\<lparr>conferences := AList.update cn (c\<lparr>waitlist := rest @ [w]\<rparr>) (conferences s)\<rparr>"
    using assms by (subst process_loop.simps) simp
qed

theorem promotion_loop_witness:
  "map_of (conferences (run slot_freed init)) ''C'' = Some (conference_C 1 [''wlB'', ''wlD''])
   \<and> map_of (waitlists (run slot_freed init)) ''wlB'' = Some entry_B
   \<and> process_waitlist (uuids ''bkB'') (minutes 30) (Str ''C'') (run slot_freed init)
       = Inr ((run slot_freed init)
                \<lparr>conferences := [(''C'', conference_C 1 [''wlD'', ''wlB''])]\<rparr>)
   \<and> process_waitlist (uuids ''bkB'') (hours 2) (Str ''C'') (run slot_freed init)
       = Inr ((run slot_freed init)
                \<lparr>bookings := bookings (run slot_freed init) @
                     [(''bkB'', \<lparr>UserID = ''B'', Conference = ''C'', timestamp = hours 2,
                                booking_id = ''bkB''\<rparr>)],
                  conferences := [(''C'', conference_C 0 [''wlD''])],
                  waitlists := AList.delete ''wlB'' (waitlists (run slot_freed init))\<rparr>)"
proof -
  let ?S = "run slot_freed init"
  let ?c = "conference_C 1 [''wlB'', ''wlD'']"
  let ?S1 = "?S\<lparr>bookings := AList.update (uuids ''bkB'' 0)
                   \<lparr>UserID = UserID entry_B, Conference = ''C'', timestamp = hours 2,
                    booking_id = uuids ''bkB'' 0\<rparr>
                   (bookings ?S),
               conferences := AList.update ''C''
                   (?c\<lparr>waitlist := [''wlD''], available_slots := available_slots ?c - 1\<rparr>)
                   (conferences ?S),
               waitlists := AList.delete ''wlB'' (waitlists ?S)\<rparr>"
  have h: "map_of (conferences ?S) ''C'' = Some ?c" by code_simp
  have e: "map_of (waitlists ?S) ''wlB'' = Some entry_B" by code_simp
  have cs: "conferences ?S = [(''C'', ?c)]" by code_simp
  have bs: "map fst (bookings ?S) = [''bkA'']" by code_simp
  have fresh: "AList.update ''bkB'' b (bookings ?S) = bookings ?S @ [(''bkB'', b)]" for b
    using bs by (cases "bookings ?S") (auto simp: update_conv')
  have g: "0 < available_slots ?c \<and> waitlist ?c = ''wlB'' # [''wlD'']"
    by (simp add: conference_C_def)
  have young: "minutes 30 - timestamp entry_B \<le> hours 1"
    by (simp add: minutes_def hours_def entry_B_def)
  have old: "hours 1 < hours 2 - timestamp entry_B"
    by (simp add: hours_def entry_B_def)
  have h1: "map_of (conferences ?S1) ''C'' = Some (conference_C 0 [''wlD''])"
    by (simp add: conference_C_def update_conv')
  from promotion_loop [OF h, where w = "''wlB''" and rest = "[''wlD'']" and e = entry_B
      and now = "minutes 30" and ids = "uuids ''bkB''"] g e young
  have a: "process_waitlist (uuids ''bkB'') (minutes 30) (Str ''C'') ?S
        = Inr (?S\<lparr>conferences := AList.update ''C'' (?c\<lparr>waitlist := [''wlD''] @ [''wlB'']\<rparr>)
                    (conferences ?S)\<rparr>)"
    by simp
  from promotion_loop [OF h, where w = "''wlB''" and rest = "[''wlD'']" and e = entry_B
      and now = "hours 2" and ids = "uuids ''bkB''"] g e old
  have b: "process_waitlist (uuids ''bkB'') (hours 2) (Str ''C'') ?S
        = Inr (process_loop (\<lambda>n. uuids ''bkB'' (Suc n)) (hours 2) ''C'' ?S1)"
    by simp
  from promotion_loop [OF h1, where ids = "\<lambda>n. uuids ''bkB'' (Suc n)" and now = "hours 2"]
  have c: "process_loop (\<lambda>n. uuids ''bkB'' (Suc n)) (hours 2) ''C'' ?S1 = ?S1"
    by (simp add: conference_C_def)
  show ?thesis using h e a b c
    by (simp add: cs conference_C_def uuids_def entry_B_def fresh)
qed

subsection \<open>Queue order\<close>

text \<open>
  A pass promotes along the queue from its head: an entry that was in the waitlist store
  before the pass and is gone after it has nothing but promoted entries in front of it.
\<close>

lemma loop_unfold:
  assumes "map_of (conferences s) cn = Some c"
  shows "process_loop ids now cn s =
     (if 0 < available_slots c then
        (case waitlist c of
           [] \<Rightarrow> s
         | w # rest \<Rightarrow>
             (case map_of (waitlists s) w of
                None \<Rightarrow> s\<lparr>conferences := AList.update cn (c\<lparr>waitlist := rest @ [w]\<rparr>)
                                (conferences s)\<rparr>
              | Some e \<Rightarrow>
                  if hours 1 < now - timestamp e then
                    process_loop (\<lambda>n. ids (Suc n)) now cn
                      (s\<lparr>bookings := AList.update (ids 0)
                            \<lparr>UserID = UserID e, Conference = cn, timestamp = now,
                             booking_id = ids 0\<rparr> (bookings s),
                         conferences := AList.update cn
                            (c\<lparr>waitlist := rest, available_slots := available_slots c - 1\<rparr>)
                            (conferences s),
                         waitlists := AList.delete w (waitlists s)\<rparr>)
                  else s\<lparr>conferences := AList.update cn (c\<lparr>waitlist := rest @ [w]\<rparr>)
                             (conferences s)\<rparr>))
      else s)"
  using assms by (subst process_loop.simps) simp

lemma waitlists_only_shrink:
  "map_of (waitlists s) k = None \<Longrightarrow> map_of (waitlists (process_loop ids now cn s)) k = None"
proof (induction ids now cn s rule: process_loop.induct)
  case (1 ids now cn s)
  show ?case
  proof (cases "map_of (conferences s) cn")
    case None
    then show ?thesis using "1.prems" by (subst process_loop.simps) simp
  next
    case c: (Some c)
    show ?thesis
    proof (cases "0 < available_slots c")
      case False
      then show ?thesis using c "1.prems" by (simp add: loop_unfold)
    next
      case True
      show ?thesis
      proof (cases "waitlist c")
        case Nil
        then show ?thesis using c True "1.prems" by (simp add: loop_unfold)
      next
        case (Cons w rest)
        show ?thesis
        proof (cases "map_of (waitlists s) w")
          case None
          then show ?thesis using c True Cons "1.prems" by (simp add: loop_unfold)
        next
          case e: (Some e)
          show ?thesis
          proof (cases "hours 1 < now - timestamp e")
            case False
            then show ?thesis using c True Cons e "1.prems" by (simp add: loop_unfold)
          next
            case stale: True
            have "map_of (waitlists (s\<lparr>bookings := AList.update (ids 0)
                            \<lparr>UserID = UserID e, Conference = cn, timestamp = now,
                             booking_id = ids 0\<rparr> (bookings s),
                         conferences := AList.update cn
                            (c\<lparr>waitlist := rest, available_slots := available_slots c - 1\<rparr>)
                            (conferences s),
                         waitlists := AList.delete w (waitlists s)\<rparr>)) k = None"
              using "1.prems" by (simp add: delete_conv')
            from "1.IH" [OF c True Cons e stale this]
            show ?thesis using c True Cons e stale by (simp add: loop_unfold)
          qed
        qed
      qed
    qed
  qed
qed

lemma promotion_in_queue_order:
  assumes "map_of (conferences s) cn = Some c"
    and "waitlist c = pre @ w # rest" and "w \<notin> set pre"
    and "map_of (waitlists s) w \<noteq> None"
    and "map_of (waitlists (process_loop ids now cn s)) w = None"
  shows "\<forall>v\<in>set pre. map_of (waitlists (process_loop ids now cn s)) v = None"
  using assms
proof (induction pre arbitrary: s c ids)
  case Nil
  then show ?case by simp
next
  case (Cons p pre)
  note c = Cons.prems(1)
  have q: "waitlist c = p # (pre @ w # rest)" using Cons.prems(2) by simp
  have pw: "p \<noteq> w" and wpre: "w \<notin> set pre" using Cons.prems(3) by auto
  have slots: "0 < available_slots c"
  proof (rule ccontr)
    assume "\<not> 0 < available_slots c"
    then have "process_loop ids now cn s = s" using c by (simp add: loop_unfold)
    with Cons.prems(4,5) show False by simp
  qed
  obtain e where e: "map_of (waitlists s) p = Some e" and stale: "hours 1 < now - timestamp e"
  proof (cases "map_of (waitlists s) p")
    case None
    then have "waitlists (process_loop ids now cn s) = waitlists s"
      using c q slots by (simp add: loop_unfold)
    with Cons.prems(4,5) show ?thesis by simp
  next
    case (Some e)
    show ?thesis
    proof (cases "hours 1 < now - timestamp e")
      case True
      with Some that show ?thesis by blast
    next
      case False
      then have "waitlists (process_loop ids now cn s) = waitlists s"
        using c q slots Some by (simp add: loop_unfold)
      with Cons.prems(4,5) show ?thesis by simp
    qed
  qed
  let ?c1 = "c\<lparr>waitlist := pre @ w # rest, available_slots := available_slots c - 1\<rparr>"
  let ?s1 = "s\<lparr>bookings := AList.update (ids 0)
                  \<lparr>UserID = UserID e, Conference = cn, timestamp = now,
                   booking_id = ids 0\<rparr> (bookings s),
               conferences := AList.update cn ?c1 (conferences s),
               waitlists := AList.delete p (waitlists s)\<rparr>"
  have unf: "process_loop ids now cn s = process_loop (\<lambda>n. ids (Suc n)) now cn ?s1"
    using c q slots e stale by (simp add: loop_unfold)
  have c1: "map_of (conferences ?s1) cn = Some ?c1" by (simp add: update_conv')
  have q1: "waitlist ?c1 = pre @ w # rest" by simp
  have w1: "map_of (waitlists ?s1) w \<noteq> None"
    using Cons.prems(4) pw by (simp add: delete_conv')
  have f1: "map_of (waitlists (process_loop (\<lambda>n. ids (Suc n)) now cn ?s1)) w = None"
    using Cons.prems(5) unf by simp
  have rest_gone: "\<forall>v\<in>set pre. map_of (waitlists (process_loop (\<lambda>n. ids (Suc n)) now cn ?s1)) v = None"
    using Cons.IH [OF c1 q1 wpre w1 f1] .
  have "map_of (waitlists ?s1) p = None" by (simp add: delete_conv')
  then have "map_of (waitlists (process_loop (\<lambda>n. ids (Suc n)) now cn ?s1)) p = None"
    by (rule waitlists_only_shrink)
  with rest_gone show ?case unfolding unf by simp
qed

end
